theory Spec2Isabelle
  imports Complex_Main
begin

section \<open>The booking form's validation schema\<close>

text \<open>
  The only logic of \<^verbatim>\<open>TicketBookingForm.jsx\<close> is the constant \<^verbatim>\<open>schema\<close> (lines 9-19), a
  composition of zod combinators, handed to react-hook-form through \<^verbatim>\<open>zodResolver\<close>
  (line 28). The combinators are library code, of a version the sources do not pin; they
  are modelled here after zod 3.x
  (\<^verbatim>\<open>ZodString._parse\<close>, \<^verbatim>\<open>ZodNumber._parse\<close>, \<^verbatim>\<open>ZodDate._parse\<close>, \<^verbatim>\<open>ZodEnum._parse\<close>,
  \<^verbatim>\<open>ZodOptional._parse\<close>, \<^verbatim>\<open>ZodEffects._parse\<close>, \<^verbatim>\<open>ZodObject._parse\<close>, \<^verbatim>\<open>handleResult\<close>) with
  its English default messages, and \<^verbatim>\<open>schema\<close> is then written exactly as the source
  composes them. Two things of the library are parameters of the schema: its test of an
  email address, and its reading of the second argument of \<^verbatim>\<open>z.enum\<close>, which zod 3 and
  zod 4 do differently.
\<close>

subsection \<open>JavaScript values\<close>

text \<open>
  A number is a double: only its comparison with \<^verbatim>\<open>1\<close> is used, which is exact, so a finite
  number is a rational. A \<^verbatim>\<open>Date\<close> holds a time value, or \<^verbatim>\<open>NaN\<close> (\<open>None\<close>) when it is
  invalid. A plain object is the list of its own properties.
\<close>

datatype jsnum = NaN | NegInfinity | Finite rat | Infinity

datatype jsvalue =
    JUndefined
  | JNull
  | JBool bool
  | JNum jsnum
  | JStr string
  | JBigInt int
  | JSymbol
  | JFunction
  | JDate "int option"
  | JArray "jsvalue list"
  | JMap
  | JSet
  | JPromise
  | JObj "(string \<times> jsvalue) list"

text \<open>The relational \<^verbatim>\<open><\<close> on numbers: every comparison with \<^verbatim>\<open>NaN\<close> is false.\<close>

fun num_lt :: "jsnum \<Rightarrow> jsnum \<Rightarrow> bool" where
  "num_lt NaN _ = False"
| "num_lt _ NaN = False"
| "num_lt NegInfinity NegInfinity = False"
| "num_lt NegInfinity _ = True"
| "num_lt _ NegInfinity = False"
| "num_lt Infinity _ = False"
| "num_lt _ Infinity = True"
| "num_lt (Finite a) (Finite b) = (a < b)"

text \<open>\<^verbatim>\<open>data[key]\<close> and \<^verbatim>\<open>key in data\<close> on a plain object.\<close>

definition get_prop :: "(string \<times> jsvalue) list \<Rightarrow> string \<Rightarrow> jsvalue" where
  "get_prop kvs k = (case map_of kvs k of None \<Rightarrow> JUndefined | Some v \<Rightarrow> v)"

definition has_prop :: "(string \<times> jsvalue) list \<Rightarrow> string \<Rightarrow> bool" where
  "has_prop kvs k = (map_of kvs k \<noteq> None)"

text \<open>
  zod's \<^verbatim>\<open>getParsedType\<close> takes an object for a promise when its \<^verbatim>\<open>then\<close> and its
  \<^verbatim>\<open>catch\<close> are both functions.
\<close>

definition promise_like :: "(string \<times> jsvalue) list \<Rightarrow> bool" where
  "promise_like kvs = (get_prop kvs ''then'' = JFunction \<and> get_prop kvs ''catch'' = JFunction)"

subsection \<open>Parsed types, issues and messages\<close>

datatype ZodParsedType =
    T_string | T_nan | T_number | T_boolean | T_date | T_bigint | T_symbol | T_function
  | T_undefined | T_null | T_array | T_object | T_promise | T_map | T_set

fun getParsedType :: "jsvalue \<Rightarrow> ZodParsedType" where
  "getParsedType JUndefined = T_undefined"
| "getParsedType (JStr _) = T_string"
| "getParsedType (JNum n) = (if n = NaN then T_nan else T_number)"
| "getParsedType (JBool _) = T_boolean"
| "getParsedType JFunction = T_function"
| "getParsedType (JBigInt _) = T_bigint"
| "getParsedType JSymbol = T_symbol"
| "getParsedType (JArray _) = T_array"
| "getParsedType JNull = T_null"
| "getParsedType JPromise = T_promise"
| "getParsedType JMap = T_map"
| "getParsedType JSet = T_set"
| "getParsedType (JDate _) = T_date"
| "getParsedType (JObj kvs) = (if promise_like kvs then T_promise else T_object)"

fun type_name :: "ZodParsedType \<Rightarrow> string" where
  "type_name T_string = ''string''"
| "type_name T_nan = ''nan''"
| "type_name T_number = ''number''"
| "type_name T_boolean = ''boolean''"
| "type_name T_date = ''date''"
| "type_name T_bigint = ''bigint''"
| "type_name T_symbol = ''symbol''"
| "type_name T_function = ''function''"
| "type_name T_undefined = ''undefined''"
| "type_name T_null = ''null''"
| "type_name T_array = ''array''"
| "type_name T_object = ''object''"
| "type_name T_promise = ''promise''"
| "type_name T_map = ''map''"
| "type_name T_set = ''set''"

datatype ZodIssueCode =
  invalid_type | invalid_enum_value | invalid_string | too_small | invalid_date | custom

record ZodIssue =
  code :: ZodIssueCode
  path :: "string list"
  message :: string

text \<open>\<^verbatim>\<open>util.joinValues\<close>: the options quoted and separated by \<^verbatim>\<open> | \<close>.\<close>

fun joinValues :: "string list \<Rightarrow> string" where
  "joinValues [] = []"
| "joinValues [v] = [CHR 0x27] @ v @ [CHR 0x27]"
| "joinValues (v # vs) = [CHR 0x27] @ v @ [CHR 0x27] @ '' | '' @ joinValues vs"

text \<open>The default error map (locale \<^verbatim>\<open>en\<close>), for the issue codes that come without a message.\<close>

definition default_invalid_type :: "string \<Rightarrow> ZodParsedType \<Rightarrow> string" where
  "default_invalid_type expected received =
     (if received = T_undefined then ''Required''
      else ''Expected '' @ expected @ '', received '' @ type_name received)"

definition default_invalid_enum_value :: "string list \<Rightarrow> string \<Rightarrow> string" where
  "default_invalid_enum_value options received =
     ''Invalid enum value. Expected '' @ joinValues options @ '', received '' @
       [CHR 0x27] @ received @ [CHR 0x27]"

definition default_invalid_date :: string where
  "default_invalid_date = ''Invalid date''"

subsection \<open>Parse results\<close>

text \<open>
  zod's \<^verbatim>\<open>ParseReturnType\<close>: \<^verbatim>\<open>OK\<close>, \<^verbatim>\<open>DIRTY\<close> (a value, with issues raised) and \<^verbatim>\<open>INVALID\<close>
  (aborted). The issues that zod pushes on its shared context are carried by the result.
  A parser also threads the \<^verbatim>\<open>lastIndex\<close> of the one \<^verbatim>\<open>RegExp\<close> object the schema owns
  (the literal of line 12): it is the only mutable state validation touches.
\<close>

datatype ParseReturn = OK jsvalue | DIRTY "ZodIssue list" jsvalue | INVALID "ZodIssue list"

type_synonym ZodType = "string list \<Rightarrow> jsvalue \<Rightarrow> nat \<Rightarrow> ParseReturn \<times> nat"

fun issues_of :: "ParseReturn \<Rightarrow> ZodIssue list" where
  "issues_of (OK _) = []"
| "issues_of (DIRTY is _) = is"
| "issues_of (INVALID is) = is"

fun is_aborted :: "ParseReturn \<Rightarrow> bool" where
  "is_aborted (INVALID _) = True"
| "is_aborted _ = False"

text \<open>\<^verbatim>\<open>addIssueToContext\<close> followed by \<^verbatim>\<open>status.dirty()\<close>.\<close>

fun add_dirty :: "ZodIssue \<Rightarrow> ParseReturn \<Rightarrow> ParseReturn" where
  "add_dirty i (OK v) = DIRTY [i] v"
| "add_dirty i (DIRTY is v) = DIRTY (is @ [i]) v"
| "add_dirty i (INVALID is) = INVALID (is @ [i])"

subsection \<open>RegExp objects\<close>

text \<open>
  \<^verbatim>\<open>RegExp.prototype.test\<close>: the pattern is tried from \<^verbatim>\<open>lastIndex\<close> when the \<^verbatim>\<open>g\<close> or \<^verbatim>\<open>y\<close>
  flag is set and from \<^verbatim>\<open>0\<close> otherwise, and \<^verbatim>\<open>lastIndex\<close> is written only under those flags.
  \<open>exec_at re s i\<close> is the end of the first match of the pattern in \<open>s\<close> when the search
  starts at index \<open>i\<close>.
\<close>

record RegExp =
  exec_at :: "string \<Rightarrow> nat \<Rightarrow> nat option"
  global :: bool
  sticky :: bool

definition RegExp_test :: "RegExp \<Rightarrow> string \<Rightarrow> nat \<Rightarrow> bool \<times> nat" where
  "RegExp_test re s lastIndex =
     (let keeps = (global re \<or> sticky re);
          start = (if keeps then lastIndex else 0)
      in if length s < start then (False, if keeps then 0 else lastIndex)
         else (case exec_at re s start of
                 None \<Rightarrow> (False, if keeps then 0 else lastIndex)
               | Some e \<Rightarrow> (True, if keeps then e else lastIndex)))"

definition is_digit :: "char \<Rightarrow> bool" where
  "is_digit c = (c \<in> set ''0123456789'')"

text \<open>
  The literal \<^verbatim>\<open>/^\d{10}$/\<close> of line 12: no flag; \<^verbatim>\<open>^\<close> lets a match begin at index 0 only,
  \<^verbatim>\<open>$\<close> (no \<^verbatim>\<open>m\<close> flag) lets it end at the end of the input only.
\<close>

definition phone_re :: RegExp where
  "phone_re =
     \<lparr> exec_at = (\<lambda>s i. if i = 0 \<and> length s = 10 \<and> list_all is_digit s then Some 10 else None),
       global = False, sticky = False \<rparr>"

subsection \<open>The zod combinators the schema uses\<close>

definition type_issue :: "string list \<Rightarrow> string \<Rightarrow> jsvalue \<Rightarrow> ZodIssue" where
  "type_issue p expected data =
     \<lparr> code = invalid_type, path = p,
       message = default_invalid_type expected (getParsedType data) \<rparr>"

text \<open>\<^verbatim>\<open>z.string()\<close>: \<^verbatim>\<open>ZodString._parse\<close> with no check.\<close>

definition z_string :: ZodType where
  "z_string p data li =
     (if getParsedType data \<noteq> T_string then (INVALID [type_issue p ''string'' data], li)
      else (OK data, li))"

text \<open>
  One more entry of \<^verbatim>\<open>ZodString\<close>'s \<^verbatim>\<open>checks\<close>: it runs after the type test passed, whatever
  the earlier checks said, and a failure raises its issue and makes the status dirty.
\<close>

definition string_check ::
  "(string \<Rightarrow> nat \<Rightarrow> bool \<times> nat) \<Rightarrow> ZodIssueCode \<Rightarrow> string \<Rightarrow> ZodType \<Rightarrow> ZodType" where
  "string_check test c msg base p data li =
     (case base p data li of (r, li1) \<Rightarrow>
        if is_aborted r then (r, li1)
        else (case data of
                JStr s \<Rightarrow>
                  (case test s li1 of (ok, li2) \<Rightarrow>
                     (if ok then r else add_dirty \<lparr> code = c, path = p, message = msg \<rparr> r, li2))
              | _ \<Rightarrow> (r, li1)))"

text \<open>\<^verbatim>\<open>.min(n, msg)\<close> on a string: the issue is raised when \<^verbatim>\<open>data.length < n\<close>.\<close>

definition string_min :: "nat \<Rightarrow> string \<Rightarrow> ZodType \<Rightarrow> ZodType" where
  "string_min n msg = string_check (\<lambda>s li. (\<not> length s < n, li)) too_small msg"

text \<open>
  \<^verbatim>\<open>.email(msg)\<close>: the test of zod's own \<^verbatim>\<open>emailRegex\<close> (flag \<^verbatim>\<open>i\<close> only, so stateless), which
  differs between releases and is a parameter.
\<close>

definition email :: "(string \<Rightarrow> bool) \<Rightarrow> string \<Rightarrow> ZodType \<Rightarrow> ZodType" where
  "email emailRegex msg = string_check (\<lambda>s li. (emailRegex s, li)) invalid_string msg"

text \<open>\<^verbatim>\<open>.regex(re, msg)\<close>: zod sets \<^verbatim>\<open>re.lastIndex = 0\<close>, then calls \<^verbatim>\<open>re.test(data)\<close>.\<close>

definition regex :: "RegExp \<Rightarrow> string \<Rightarrow> ZodType \<Rightarrow> ZodType" where
  "regex re msg = string_check (\<lambda>s li. RegExp_test re s 0) invalid_string msg"

text \<open>\<^verbatim>\<open>z.number()\<close>: \<^verbatim>\<open>NaN\<close> has the parsed type \<^verbatim>\<open>nan\<close>; the infinities are numbers.\<close>

definition z_number :: ZodType where
  "z_number p data li =
     (if getParsedType data \<noteq> T_number then (INVALID [type_issue p ''number'' data], li)
      else (OK data, li))"

text \<open>\<^verbatim>\<open>.min(n, msg)\<close> on a number (inclusive): the issue is raised when \<^verbatim>\<open>data < n\<close>.\<close>

definition number_min :: "jsnum \<Rightarrow> string \<Rightarrow> ZodType \<Rightarrow> ZodType" where
  "number_min n msg base p data li =
     (case base p data li of (r, li1) \<Rightarrow>
        if is_aborted r then (r, li1)
        else (case data of
                JNum x \<Rightarrow>
                  (if num_lt x n
                   then add_dirty \<lparr> code = too_small, path = p, message = msg \<rparr> r else r, li1)
              | _ \<Rightarrow> (r, li1)))"

text \<open>
  \<^verbatim>\<open>z.date()\<close>: a value that is no \<^verbatim>\<open>Date\<close> is an \<^verbatim>\<open>invalid_type\<close>, a \<^verbatim>\<open>Date\<close> whose time is
  \<^verbatim>\<open>NaN\<close> an \<^verbatim>\<open>invalid_date\<close>; both abort. The result is a copy of the date.
\<close>

definition z_date :: ZodType where
  "z_date p data li =
     (case data of
        JDate t \<Rightarrow>
          (case t of
             None \<Rightarrow>
               (INVALID [\<lparr> code = invalid_date, path = p, message = default_invalid_date \<rparr>], li)
           | Some ms \<Rightarrow> (OK (JDate (Some ms)), li))
      | _ \<Rightarrow> (INVALID [type_issue p ''date'' data], li))"

text \<open>
  \<^verbatim>\<open>.refine(check, msg)\<close>: \<^verbatim>\<open>ZodEffects._parse\<close> for a refinement. An aborted inner result is
  returned before the check is called.
\<close>

definition refine :: "(jsvalue \<Rightarrow> bool) \<Rightarrow> string \<Rightarrow> ZodType \<Rightarrow> ZodType" where
  "refine check msg base p data li =
     (case base p data li of (r, li1) \<Rightarrow>
        (case r of
           INVALID is \<Rightarrow> (INVALID is, li1)
         | OK v \<Rightarrow>
             (if check v then r else add_dirty \<lparr> code = custom, path = p, message = msg \<rparr> r, li1)
         | DIRTY is v \<Rightarrow>
             (if check v then r else add_dirty \<lparr> code = custom, path = p, message = msg \<rparr> r, li1)))"

text \<open>The check of lines 14 and 15: \<^verbatim>\<open>(val) => val instanceof Date && !isNaN(val)\<close>.\<close>

definition is_valid_Date :: "jsvalue \<Rightarrow> bool" where
  "is_valid_Date val = (case val of JDate t \<Rightarrow> t \<noteq> None | _ \<Rightarrow> False)"

text \<open>
  A schema's own error map: from the code of an issue, the data and the default message
  to the message of the issue. \<^verbatim>\<open>z.enum\<close> gets its error map from its second argument,
  through the library's \<^verbatim>\<open>processCreateParams\<close>. How that function reads a bare string
  differs between the releases of zod (3.x reads the properties \<^verbatim>\<open>message\<close>,
  \<^verbatim>\<open>required_error\<close> and \<^verbatim>\<open>invalid_type_error\<close> of an object, and a string has none; 4.x
  takes a string for the message), and the sources pin no release: it is a parameter of
  the schema.
\<close>

type_synonym ZodErrorMap = "ZodIssueCode \<Rightarrow> jsvalue \<Rightarrow> string \<Rightarrow> string"

text \<open>\<^verbatim>\<open>z.enum(values, params)\<close>: \<^verbatim>\<open>ZodEnum._parse\<close>, with the error map made from \<^verbatim>\<open>params\<close>.\<close>

definition z_enum :: "string list \<Rightarrow> ZodErrorMap \<Rightarrow> ZodType" where
  "z_enum vals errorMap p data li =
     (case data of
        JStr s \<Rightarrow>
          (if s \<in> set vals then (OK data, li)
           else (INVALID [\<lparr> code = invalid_enum_value, path = p,
                   message = errorMap invalid_enum_value data
                               (default_invalid_enum_value vals s) \<rparr>], li))
      | _ \<Rightarrow>
          (INVALID [\<lparr> code = invalid_type, path = p,
             message = errorMap invalid_type data
                         (default_invalid_type (joinValues vals) (getParsedType data)) \<rparr>], li))"

text \<open>\<^verbatim>\<open>.optional()\<close>: \<^verbatim>\<open>undefined\<close> is accepted as it is, anything else goes to the inner type.\<close>

definition optional :: "ZodType \<Rightarrow> ZodType" where
  "optional base p data li =
     (if getParsedType data = T_undefined then (OK JUndefined, li) else base p data li)"

text \<open>
  \<^verbatim>\<open>z.object(shape)\<close>: every key of the shape is parsed, in the shape's order, before the
  results are merged; unknown keys are stripped. A pair is (key, result, \<^verbatim>\<open>key in data\<close>).
\<close>

fun parse_shape ::
  "(string \<times> ZodType) list \<Rightarrow> string list \<Rightarrow> (string \<times> jsvalue) list \<Rightarrow> nat \<Rightarrow>
     (string \<times> ParseReturn \<times> bool) list \<times> nat" where
  "parse_shape [] p kvs li = ([], li)"
| "parse_shape ((key, t) # shape) p kvs li =
     (case t (p @ [key]) (get_prop kvs key) li of (r, li1) \<Rightarrow>
        (case parse_shape shape p kvs li1 of (pairs, li2) \<Rightarrow>
           ((key, r, has_prop kvs key) # pairs, li2)))"

fun value_of :: "ParseReturn \<Rightarrow> jsvalue" where
  "value_of (OK v) = v"
| "value_of (DIRTY is v) = v"
| "value_of (INVALID is) = JUndefined"

definition all_issues :: "(string \<times> ParseReturn \<times> bool) list \<Rightarrow> ZodIssue list" where
  "all_issues pairs = concat (map (\<lambda>(k, r, alwaysSet). issues_of r) pairs)"

definition finalObject :: "(string \<times> ParseReturn \<times> bool) list \<Rightarrow> (string \<times> jsvalue) list" where
  "finalObject pairs =
     map (\<lambda>(k, r, alwaysSet). (k, value_of r))
       (filter (\<lambda>(k, r, alwaysSet). k \<noteq> ''__proto__'' \<and> (value_of r \<noteq> JUndefined \<or> alwaysSet))
          pairs)"

definition mergeObjectSync :: "(string \<times> ParseReturn \<times> bool) list \<Rightarrow> ParseReturn" where
  "mergeObjectSync pairs =
     (if list_ex (\<lambda>(k, r, alwaysSet). is_aborted r) pairs then INVALID (all_issues pairs)
      else if list_ex (\<lambda>(k, r, alwaysSet). case r of DIRTY is v \<Rightarrow> True | _ \<Rightarrow> False) pairs
        then DIRTY (all_issues pairs) (JObj (finalObject pairs))
      else OK (JObj (finalObject pairs)))"

definition z_object :: "(string \<times> ZodType) list \<Rightarrow> ZodType" where
  "z_object shape p data li =
     (case data of
        JObj kvs \<Rightarrow>
          (if promise_like kvs then (INVALID [type_issue p ''object'' data], li)
           else (case parse_shape shape p kvs li of (pairs, li1) \<Rightarrow>
                   (mergeObjectSync pairs, li1)))
      | _ \<Rightarrow> (INVALID [type_issue p ''object'' data], li))"

subsection \<open>The schema (lines 9-19)\<close>

text \<open>
  The object literal passed to \<^verbatim>\<open>z.object\<close>, and the schema built from it. The two
  parameters are the library's test of an email address and its reading of the second
  argument of \<^verbatim>\<open>z.enum\<close>.
\<close>

definition shape ::
  "(string \<Rightarrow> bool) \<Rightarrow> (jsvalue \<Rightarrow> ZodErrorMap) \<Rightarrow> (string \<times> ZodType) list" where
  "shape emailRegex processCreateParams =
     [(''name'', string_min 1 ''Name is required'' z_string),
      (''email'', email emailRegex ''Invalid email address'' z_string),
      (''phone'', regex phone_re ''Phone number must be 10 digits'' z_string),
      (''tickets'', number_min (Finite 1) ''At least one ticket is required'' z_number),
      (''date'', refine is_valid_Date ''Booking date is required'' z_date),
      (''time'', refine is_valid_Date ''Show/travel time is required'' z_date),
      (''payment'', z_enum [''Card'', ''UPI'', ''Net Banking'', ''Wallet'']
                      (processCreateParams (JStr ''Please select a payment option''))),
      (''seat'', z_enum [''Window'', ''Aisle'', ''Center'']
                   (processCreateParams (JStr ''Please select a seat preference''))),
      (''specialRequests'', optional z_string)]"

definition schema :: "(string \<Rightarrow> bool) \<Rightarrow> (jsvalue \<Rightarrow> ZodErrorMap) \<Rightarrow> ZodType" where
  "schema emailRegex processCreateParams = z_object (shape emailRegex processCreateParams)"

subsection \<open>Running the schema: \<^verbatim>\<open>safeParse\<close> and \<^verbatim>\<open>zodResolver\<close>\<close>

text \<open>
  \<^verbatim>\<open>handleResult\<close> throws when a result is not valid and no issue was raised; every other
  failure is data. \<^verbatim>\<open>zodResolver\<close> (line 28) catches the \<^verbatim>\<open>ZodError\<close> of \<^verbatim>\<open>parse\<close> and rethrows
  anything else. Its error object keeps the first issue of each path, keyed by the path
  joined with dots.
\<close>

datatype SafeParseReturn = Success jsvalue | Failure "ZodIssue list"

datatype 'a outcome = Returns 'a | Throws string

definition handleResult :: "ParseReturn \<Rightarrow> SafeParseReturn outcome" where
  "handleResult r =
     (case r of
        OK v \<Rightarrow> Returns (Success v)
      | _ \<Rightarrow>
          (if issues_of r = [] then Throws ''Validation failed but no issues detected.''
           else Returns (Failure (issues_of r))))"

definition safeParse :: "ZodType \<Rightarrow> jsvalue \<Rightarrow> nat \<Rightarrow> SafeParseReturn outcome \<times> nat" where
  "safeParse t data li = (case t [] data li of (r, li1) \<Rightarrow> (handleResult r, li1))"

record FieldError =
  fe_message :: string
  fe_type :: ZodIssueCode

record ResolverResult =
  res_values :: jsvalue
  res_errors :: "(string \<times> FieldError) list"

fun join_dot :: "string list \<Rightarrow> string" where
  "join_dot [] = []"
| "join_dot [k] = k"
| "join_dot (k # ks) = k @ ''.'' @ join_dot ks"

fun parseErrorSchema ::
  "ZodIssue list \<Rightarrow> (string \<times> FieldError) list \<Rightarrow> (string \<times> FieldError) list" where
  "parseErrorSchema [] errs = errs"
| "parseErrorSchema (i # is) errs =
     parseErrorSchema is
       (if map_of errs (join_dot (path i)) = None
        then errs @ [(join_dot (path i), \<lparr> fe_message = message i, fe_type = code i \<rparr>)]
        else errs)"

definition zodResolver :: "ZodType \<Rightarrow> jsvalue \<Rightarrow> nat \<Rightarrow> ResolverResult outcome \<times> nat" where
  "zodResolver t vals li =
     (case safeParse t vals li of (res, li1) \<Rightarrow>
        (case res of
           Throws e \<Rightarrow> (Throws e, li1)
         | Returns (Success d) \<Rightarrow> (Returns \<lparr> res_values = d, res_errors = [] \<rparr>, li1)
         | Returns (Failure is) \<Rightarrow>
             (Returns \<lparr> res_values = JObj [], res_errors = parseErrorSchema is [] \<rparr>, li1)))"

text \<open>The spec's ErrorMap: the message shown for a field, if any.\<close>

definition error_message :: "ResolverResult \<Rightarrow> string \<Rightarrow> string option" where
  "error_message res field = map_option fe_message (map_of (res_errors res) field)"

subsection \<open>A concrete \<^verbatim>\<open>emailRegex\<close>\<close>

text \<open>
  For concrete inputs the parameter is instantiated with the expression of zod 3.23:
  \<^verbatim>\<open>/^(?!\.)(?!.*\.\.)([A-Z0-9_'+\-\.]*)[A-Z0-9_+-]@([A-Z0-9][A-Z0-9\-]*\.)+[A-Z]{2,}$/i\<close>.
  Neither side of the \<^verbatim>\<open>@\<close> can hold an \<^verbatim>\<open>@\<close>, and no label of the domain a dot, so the
  match is decided on the pieces of the string.
\<close>

definition is_alpha :: "char \<Rightarrow> bool" where
  "is_alpha c = (c \<in> set ''abcdefghijklmnopqrstuvwxyzABCDEFGHIJKLMNOPQRSTUVWXYZ'')"

definition is_alnum :: "char \<Rightarrow> bool" where
  "is_alnum c = (is_alpha c \<or> is_digit c)"

fun split_on :: "char \<Rightarrow> string \<Rightarrow> string list" where
  "split_on sep [] = [[]]"
| "split_on sep (c # cs) =
     (if c = sep then [] # split_on sep cs
      else (case split_on sep cs of [] \<Rightarrow> [[c]] | w # ws \<Rightarrow> (c # w) # ws))"

fun has_dotdot :: "string \<Rightarrow> bool" where
  "has_dotdot (a # b # cs) = ((a = CHR ''.'' \<and> b = CHR ''.'') \<or> has_dotdot (b # cs))"
| "has_dotdot _ = False"

definition local_ok :: "string \<Rightarrow> bool" where
  "local_ok l =
     (case rev l of
        [] \<Rightarrow> False
      | z # _ \<Rightarrow>
          (is_alnum z \<or> z \<in> set ''_+-'') \<and>
          list_all (\<lambda>c. is_alnum c \<or> c \<in> set (''_+-.'' @ [CHR 0x27])) l \<and>
          \<not> has_dotdot l \<and> take 1 l \<noteq> ''.'')"

definition label_ok :: "string \<Rightarrow> bool" where
  "label_ok l =
     (case l of [] \<Rightarrow> False | c # cs \<Rightarrow> is_alnum c \<and> list_all (\<lambda>d. is_alnum d \<or> d = CHR ''-'') cs)"

definition domain_ok :: "string \<Rightarrow> bool" where
  "domain_ok d =
     (case rev (split_on CHR ''.'' d) of
        tld # l # ls \<Rightarrow> 2 \<le> length tld \<and> list_all is_alpha tld \<and> list_all label_ok (l # ls)
      | _ \<Rightarrow> False)"

definition zod_emailRegex :: "string \<Rightarrow> bool" where
  "zod_emailRegex s =
     (case split_on CHR ''@'' s of [l, d] \<Rightarrow> local_ok l \<and> domain_ok d | _ \<Rightarrow> False)"

section \<open>The rules of the specification\<close>

text \<open>
  The per-field rules of the specification's data model, each as a predicate on the value
  found under the field's key. They are written from the specification, not from the
  schema: the theorems below compare the two.
\<close>

definition name_rule :: "jsvalue \<Rightarrow> bool" where
  "name_rule v = (case v of JStr s \<Rightarrow> s \<noteq> [] | _ \<Rightarrow> False)"

definition email_rule :: "(string \<Rightarrow> bool) \<Rightarrow> jsvalue \<Rightarrow> bool" where
  "email_rule emailRegex v = (case v of JStr s \<Rightarrow> emailRegex s | _ \<Rightarrow> False)"

definition phone_rule :: "jsvalue \<Rightarrow> bool" where
  "phone_rule v = (case v of JStr s \<Rightarrow> length s = 10 \<and> list_all is_digit s | _ \<Rightarrow> False)"

definition tickets_rule :: "jsvalue \<Rightarrow> bool" where
  "tickets_rule v =
     (case v of JNum (Finite q) \<Rightarrow> 1 \<le> q | JNum Infinity \<Rightarrow> True | _ \<Rightarrow> False)"

definition date_rule :: "jsvalue \<Rightarrow> bool" where
  "date_rule v = (case v of JDate (Some ms) \<Rightarrow> True | _ \<Rightarrow> False)"

definition payment_rule :: "jsvalue \<Rightarrow> bool" where
  "payment_rule v =
     (case v of JStr s \<Rightarrow> s \<in> set [''Card'', ''UPI'', ''Net Banking'', ''Wallet''] | _ \<Rightarrow> False)"

definition seat_rule :: "jsvalue \<Rightarrow> bool" where
  "seat_rule v = (case v of JStr s \<Rightarrow> s \<in> set [''Window'', ''Aisle'', ''Center''] | _ \<Rightarrow> False)"

definition requests_rule :: "jsvalue \<Rightarrow> bool" where
  "requests_rule v = (case v of JUndefined \<Rightarrow> True | JStr s \<Rightarrow> True | _ \<Rightarrow> False)"

definition satisfies_rules :: "(string \<Rightarrow> bool) \<Rightarrow> (string \<times> jsvalue) list \<Rightarrow> bool" where
  "satisfies_rules emailRegex kvs =
     (name_rule (get_prop kvs ''name'') \<and>
      email_rule emailRegex (get_prop kvs ''email'') \<and>
      phone_rule (get_prop kvs ''phone'') \<and>
      tickets_rule (get_prop kvs ''tickets'') \<and>
      date_rule (get_prop kvs ''date'') \<and>
      date_rule (get_prop kvs ''time'') \<and>
      payment_rule (get_prop kvs ''payment'') \<and>
      seat_rule (get_prop kvs ''seat'') \<and>
      requests_rule (get_prop kvs ''specialRequests''))"

text \<open>
  The normalized input: the fields of the form that the input has, in the order of the
  form, each with the input's value; any other property is dropped.
\<close>

definition field_names :: "string list" where
  "field_names =
     [''name'', ''email'', ''phone'', ''tickets'', ''date'', ''time'', ''payment'', ''seat'',
      ''specialRequests'']"

definition normalized :: "(string \<times> jsvalue) list \<Rightarrow> (string \<times> jsvalue) list" where
  "normalized kvs = map (\<lambda>k. (k, get_prop kvs k)) (filter (has_prop kvs) field_names)"

text \<open>The rule of a field, by its key.\<close>

definition rule_of :: "(string \<Rightarrow> bool) \<Rightarrow> string \<Rightarrow> jsvalue \<Rightarrow> bool" where
  "rule_of emailRegex k =
     (if k = ''name'' then name_rule
      else if k = ''email'' then email_rule emailRegex
      else if k = ''phone'' then phone_rule
      else if k = ''tickets'' then tickets_rule
      else if k = ''date'' then date_rule
      else if k = ''time'' then date_rule
      else if k = ''payment'' then payment_rule
      else if k = ''seat'' then seat_rule
      else if k = ''specialRequests'' then requests_rule
      else (\<lambda>v. True))"

definition is_whitespace :: "char \<Rightarrow> bool" where
  "is_whitespace c = (c \<in> set [CHR '' '', CHR 0x09, CHR 0x0A, CHR 0x0B, CHR 0x0C, CHR 0x0D])"

section \<open>Auxiliary notions\<close>

text \<open>The issues that the type of one field raises on a value, taken on its own.\<close>

definition check_field :: "ZodType \<Rightarrow> string \<Rightarrow> jsvalue \<Rightarrow> ZodIssue list" where
  "check_field t k v = issues_of (fst (t [k] v 0))"

text \<open>The pairs that \<^verbatim>\<open>ZodObject._parse\<close> hands to \<^verbatim>\<open>mergeObjectSync\<close> for the schema.\<close>

definition field_results ::
  "(string \<Rightarrow> bool) \<Rightarrow> (jsvalue \<Rightarrow> ZodErrorMap) \<Rightarrow> (string \<times> jsvalue) list \<Rightarrow>
     (string \<times> ParseReturn \<times> bool) list" where
  "field_results emailRegex processCreateParams kvs =
     map (\<lambda>(k, t). (k, fst (t [k] (get_prop kvs k) 0), has_prop kvs k))
       (shape emailRegex processCreateParams)"

text \<open>
  A booking that satisfies every rule and has no \<^verbatim>\<open>specialRequests\<close>.
\<close>

definition valid_booking :: "(string \<times> jsvalue) list" where
  "valid_booking =
     [(''name'', JStr ''Ann''), (''email'', JStr ''ann@example.com''),
      (''phone'', JStr ''9876543210''), (''tickets'', JNum (Finite 2)),
      (''date'', JDate (Some 1793577600000)), (''time'', JDate (Some 1793613600000)),
      (''payment'', JStr ''UPI''), (''seat'', JStr ''Aisle'')]"

text \<open>
  The same booking with one and a half tickets; a booking that breaks the rules of four
  fields at once; one whose payment and seat are outside the two enumerations; and one
  whose date is \<^verbatim>\<open>null\<close> (what the date picker's \<^verbatim>\<open>onChange\<close> of line 100 stores for an
  emptied field) and whose time is an invalid \<^verbatim>\<open>Date\<close>.
\<close>

definition fractional_booking :: "(string \<times> jsvalue) list" where
  "fractional_booking =
     [(''name'', JStr ''Ann''), (''email'', JStr ''ann@example.com''),
      (''phone'', JStr ''9876543210''), (''tickets'', JNum (Finite (3 / 2))),
      (''date'', JDate (Some 1793577600000)), (''time'', JDate (Some 1793613600000)),
      (''payment'', JStr ''UPI''), (''seat'', JStr ''Aisle'')]"

definition careless_booking :: "(string \<times> jsvalue) list" where
  "careless_booking =
     [(''name'', JStr []), (''email'', JStr ''not-an-email''),
      (''phone'', JStr ''12345''), (''tickets'', JNum (Finite 0)),
      (''date'', JDate (Some 1793577600000)), (''time'', JDate (Some 1793613600000)),
      (''payment'', JStr ''UPI''), (''seat'', JStr ''Aisle'')]"

definition crypto_booking :: "(string \<times> jsvalue) list" where
  "crypto_booking =
     [(''name'', JStr ''Ann''), (''email'', JStr ''ann@example.com''),
      (''phone'', JStr ''9876543210''), (''tickets'', JNum (Finite 2)),
      (''date'', JDate (Some 1793577600000)), (''time'', JDate (Some 1793613600000)),
      (''payment'', JStr ''Crypto''), (''seat'', JStr ''Middle'')]"

definition undated_booking :: "(string \<times> jsvalue) list" where
  "undated_booking =
     [(''name'', JStr ''Ann''), (''email'', JStr ''ann@example.com''),
      (''phone'', JStr ''9876543210''), (''tickets'', JNum (Finite 2)),
      (''date'', JNull), (''time'', JDate None),
      (''payment'', JStr ''UPI''), (''seat'', JStr ''Aisle'')]"

text \<open>
  Ann's booking with the ticket count as a string, which is what the value of a
  \<^verbatim>\<open>select\<close> element is (lines 78-87 register it without a number conversion).
\<close>

definition picked_booking :: "(string \<times> jsvalue) list" where
  "picked_booking =
     [(''name'', JStr ''Ann''), (''email'', JStr ''ann@example.com''),
      (''phone'', JStr ''9876543210''), (''tickets'', JStr ''3''),
      (''date'', JDate (Some 1793577600000)), (''time'', JDate (Some 1793613600000)),
      (''payment'', JStr ''UPI''), (''seat'', JStr ''Aisle'')]"

text \<open>
  The concrete bookings below are run with zod 3.23's email expression and with the
  reading of \<^verbatim>\<open>z.enum\<close>'s second argument that leaves every message at its default.
\<close>

definition keeps_default :: "jsvalue \<Rightarrow> ZodErrorMap" where
  "keeps_default params c data defaultError = defaultError"

text \<open>
  The message reported for a value that violates the rule of its field, for the fields
  whose message the schema settles: the message written in the schema when the value has
  the type of the field, the library's message for a wrong type ("Required" for
  \<^verbatim>\<open>undefined\<close>) otherwise.
\<close>

definition violation_message :: "string \<Rightarrow> jsvalue \<Rightarrow> string" where
  "violation_message k v =
     (if k = ''name''
        then (case v of JStr s \<Rightarrow> ''Name is required''
              | _ \<Rightarrow> default_invalid_type ''string'' (getParsedType v))
      else if k = ''email''
        then (case v of JStr s \<Rightarrow> ''Invalid email address''
              | _ \<Rightarrow> default_invalid_type ''string'' (getParsedType v))
      else if k = ''phone''
        then (case v of JStr s \<Rightarrow> ''Phone number must be 10 digits''
              | _ \<Rightarrow> default_invalid_type ''string'' (getParsedType v))
      else if k = ''tickets''
        then (if getParsedType v = T_number then ''At least one ticket is required''
              else default_invalid_type ''number'' (getParsedType v))
      else default_invalid_type ''string'' (getParsedType v))"

definition worded_fields :: "string list" where
  "worded_fields = [''name'', ''email'', ''phone'', ''tickets'', ''specialRequests'']"

text \<open>A booking with no name and a malformed email, valid otherwise.\<close>

definition nameless_booking :: "(string \<times> jsvalue) list" where
  "nameless_booking =
     [(''email'', JStr ''not-an-email''),
      (''phone'', JStr ''9876543210''), (''tickets'', JNum (Finite 2)),
      (''date'', JDate (Some 1793577600000)), (''time'', JDate (Some 1793613600000)),
      (''payment'', JStr ''UPI''), (''seat'', JStr ''Aisle'')]"

section \<open>Lemmas about the combinators\<close>

subsection \<open>A value that satisfies its rule passes its field's type unchanged\<close>

lemma name_ok: "name_rule v \<Longrightarrow> string_min (Suc 0) msg z_string p v li = (OK v, li)"
  by (cases v) (auto simp: name_rule_def string_min_def string_check_def z_string_def)

lemma email_ok: "email_rule em v \<Longrightarrow> email em msg z_string p v li = (OK v, li)"
  by (cases v) (auto simp: email_rule_def email_def string_check_def z_string_def)

lemma phone_ok: "phone_rule v \<Longrightarrow> regex phone_re msg z_string p v li = (OK v, 0)"
  by (cases v)
     (auto simp: phone_rule_def regex_def string_check_def z_string_def RegExp_test_def
        phone_re_def)

lemma tickets_ok: "tickets_rule v \<Longrightarrow> number_min (Finite 1) msg z_number p v li = (OK v, li)"
  by (cases v) (auto simp: tickets_rule_def number_min_def z_number_def split: jsnum.splits)

lemma date_ok: "date_rule v \<Longrightarrow> refine is_valid_Date msg z_date p v li = (OK v, li)"
  by (cases v)
     (auto simp: date_rule_def refine_def z_date_def is_valid_Date_def split: option.splits)

lemma payment_ok:
  "payment_rule v \<Longrightarrow>
     z_enum [''Card'', ''UPI'', ''Net Banking'', ''Wallet''] params p v li = (OK v, li)"
  by (cases v) (auto simp: payment_rule_def z_enum_def)

lemma seat_ok:
  "seat_rule v \<Longrightarrow> z_enum [''Window'', ''Aisle'', ''Center''] params p v li = (OK v, li)"
  by (cases v) (auto simp: seat_rule_def z_enum_def)

lemma requests_ok: "requests_rule v \<Longrightarrow> optional z_string p v li = (OK v, li)"
  by (cases v) (auto simp: requests_rule_def optional_def z_string_def)

subsection \<open>The object parser, field by field\<close>

text \<open>
  No field's result depends on the state it is run in, so the pairs of the object parser
  are the results of the fields taken one by one. Every issue carries the path it was
  raised at, and a result that is not \<^verbatim>\<open>OK\<close> has an issue.
\<close>

lemmas field_defs = string_min_def email_def regex_def string_check_def z_string_def number_min_def
  z_number_def refine_def z_date_def z_enum_def optional_def RegExp_test_def phone_re_def

lemma parse_shape_stateless:
  assumes "\<And>t q v s. t \<in> set (map snd sh) \<Longrightarrow> fst (t q v s) = fst (t q v 0)"
  shows "fst (parse_shape sh p kvs li) =
           map (\<lambda>(k, t). (k, fst (t (p @ [k]) (get_prop kvs k) 0), has_prop kvs k)) sh"
  using assms
proof (induction sh arbitrary: li)
  case Nil
  then show ?case by simp
next
  case (Cons a sh)
  obtain k t where a: "a = (k, t)" by (cases a)
  have h: "fst (t (p @ [k]) (get_prop kvs k) li) = fst (t (p @ [k]) (get_prop kvs k) 0)"
    using Cons.prems [of t] a by simp
  have ih: "\<And>s. fst (parse_shape sh p kvs s) =
           map (\<lambda>(k, t). (k, fst (t (p @ [k]) (get_prop kvs k) 0), has_prop kvs k)) sh"
    by (rule Cons.IH) (rule Cons.prems, simp)
  show ?case
    using h ih [of "snd (t (p @ [k]) (get_prop kvs k) li)"]
    by (simp add: a split: prod.splits) (metis fst_conv snd_conv)
qed

lemma shape_stateless:
  "t \<in> set (map snd (shape em pcp)) \<Longrightarrow> fst (t q v s) = fst (t q v 0)"
  by (cases v; auto simp: shape_def field_defs split: option.splits)

lemma shape_paths:
  "t \<in> set (map snd (shape em pcp)) \<Longrightarrow> i \<in> set (issues_of (fst (t q v s))) \<Longrightarrow> path i = q"
  by (cases v; auto simp: shape_def field_defs type_issue_def split: option.splits if_splits)

lemma shape_sound:
  "t \<in> set (map snd (shape em pcp)) \<Longrightarrow> issues_of (fst (t q v s)) = [] \<Longrightarrow> \<exists>w. fst (t q v s) = OK w"
  by (cases v; auto simp: shape_def field_defs split: option.splits if_splits)

subsection \<open>Merging, and the resolver's error object\<close>

lemma merge_issues: "issues_of (mergeObjectSync pairs) = all_issues pairs"
proof -
  have "\<not> list_ex (\<lambda>(k, r, a). is_aborted r) pairs \<Longrightarrow>
        \<not> list_ex (\<lambda>(k, r, a). case r of DIRTY is v \<Rightarrow> True | _ \<Rightarrow> False) pairs \<Longrightarrow>
        all_issues pairs = []"
    by (induction pairs) (auto simp: all_issues_def split: ParseReturn.splits)
  then show ?thesis by (auto simp: mergeObjectSync_def)
qed

lemma merge_value:
  "all_issues pairs = [] \<Longrightarrow> \<forall>(k, r, a) \<in> set pairs. \<exists>w. r = OK w \<Longrightarrow>
     mergeObjectSync pairs = OK (JObj (finalObject pairs))"
  by (auto simp: mergeObjectSync_def list_ex_iff split: ParseReturn.splits)

lemma map_of_parseErrorSchema:
  "map_of (parseErrorSchema is errs) =
     map_of (errs @ map (\<lambda>i. (join_dot (path i), \<lparr> fe_message = message i, fe_type = code i \<rparr>)) is)"
proof (induction "is" arbitrary: errs)
  case Nil
  then show ?case by simp
next
  case (Cons i "is")
  show ?case
    by (rule ext) (auto simp: Cons.IH map_add_def split: option.splits)
qed

lemma parseErrorSchema_keeps: "errs \<noteq> [] \<Longrightarrow> parseErrorSchema is errs \<noteq> []"
  by (induction "is" arbitrary: errs) auto

lemma parseErrorSchema_nonempty: "is \<noteq> [] \<Longrightarrow> parseErrorSchema is [] \<noteq> []"
  by (cases "is") (auto simp: parseErrorSchema_keeps)


subsection \<open>The resolver on an object and on anything else\<close>

lemmas rule_defs = name_rule_def email_rule_def phone_rule_def tickets_rule_def date_rule_def
  payment_rule_def seat_rule_def requests_rule_def

lemma field_results_parse: "fst (parse_shape (shape em pcp) [] kvs li) = field_results em pcp kvs"
proof -
  have "fst (parse_shape (shape em pcp) [] kvs li) =
          map (\<lambda>(k, t). (k, fst (t ([] @ [k]) (get_prop kvs k) 0), has_prop kvs k)) (shape em pcp)"
    by (rule parse_shape_stateless) (rule shape_stateless)
  then show ?thesis by (simp add: field_results_def)
qed

lemma field_results_sound:
  "(k, r, a) \<in> set (field_results em pcp kvs) \<Longrightarrow> issues_of r = [] \<Longrightarrow> \<exists>w. r = OK w"
proof -
  assume m: "(k, r, a) \<in> set (field_results em pcp kvs)" and e: "issues_of r = []"
  from m obtain t where t: "(k, t) \<in> set (shape em pcp)" and r: "r = fst (t [k] (get_prop kvs k) 0)"
    by (auto simp: field_results_def)
  from t have "t \<in> set (map snd (shape em pcp))" by force
  then show ?thesis using shape_sound e r by blast
qed

lemma handle_merge:
  assumes "\<And>k r a. (k, r, a) \<in> set pairs \<Longrightarrow> issues_of r = [] \<Longrightarrow> \<exists>w. r = OK w"
  shows "handleResult (mergeObjectSync pairs) =
           (if all_issues pairs = [] then Returns (Success (JObj (finalObject pairs)))
            else Returns (Failure (all_issues pairs)))"
proof (cases "all_issues pairs = []")
  case True
  then have "\<forall>(k, r, a) \<in> set pairs. issues_of r = []"
    by (auto simp: all_issues_def)
  with assms have "\<forall>(k, r, a) \<in> set pairs. \<exists>w. r = OK w"
    by fast
  then have "mergeObjectSync pairs = OK (JObj (finalObject pairs))"
    using True by (rule merge_value [rotated])
  then show ?thesis using True by (simp add: handleResult_def)
next
  case False
  then show ?thesis
    using merge_issues [of pairs]
    by (cases "mergeObjectSync pairs") (auto simp: handleResult_def)
qed

lemma plain_object:
  "getParsedType data = T_object \<Longrightarrow> \<exists>kvs. data = JObj kvs \<and> \<not> promise_like kvs"
  by (cases data) (auto split: if_splits)

lemma resolver_object:
  assumes "\<not> promise_like kvs"
  shows "fst (zodResolver (schema em pcp) (JObj kvs) li) =
     (if all_issues (field_results em pcp kvs) = []
      then Returns \<lparr> res_values = JObj (finalObject (field_results em pcp kvs)), res_errors = [] \<rparr>
      else Returns \<lparr> res_values = JObj [],
                     res_errors = parseErrorSchema (all_issues (field_results em pcp kvs)) [] \<rparr>)"
proof -
  have "handleResult (mergeObjectSync (field_results em pcp kvs)) =
           (if all_issues (field_results em pcp kvs) = []
            then Returns (Success (JObj (finalObject (field_results em pcp kvs))))
            else Returns (Failure (all_issues (field_results em pcp kvs))))"
    by (rule handle_merge) (rule field_results_sound)
  then show ?thesis
    using assms
    by (simp add: zodResolver_def safeParse_def schema_def z_object_def split_beta
        field_results_parse)
qed

lemma resolver_other:
  "getParsedType data \<noteq> T_object \<Longrightarrow>
     fst (zodResolver (schema em pcp) data li) =
       Returns \<lparr> res_values = JObj [],
                 res_errors = [([], \<lparr> fe_message = default_invalid_type ''object'' (getParsedType data),
                                      fe_type = invalid_type \<rparr>)] \<rparr>"
  by (cases data)
     (auto simp: zodResolver_def safeParse_def schema_def z_object_def handleResult_def
        type_issue_def split: if_splits)

subsection \<open>A field's type raises no issue exactly when the field's rule holds\<close>

lemma name_iff: "(issues_of (fst (string_min (Suc 0) msg z_string p v li)) = []) = name_rule v"
  by (cases v) (auto simp: field_defs rule_defs)

lemma email_iff: "(issues_of (fst (email em msg z_string p v li)) = []) = email_rule em v"
  by (cases v) (auto simp: field_defs rule_defs)

lemma phone_iff: "(issues_of (fst (regex phone_re msg z_string p v li)) = []) = phone_rule v"
  by (cases v) (auto simp: field_defs rule_defs)

lemma tickets_iff:
  "(issues_of (fst (number_min (Finite 1) msg z_number p v li)) = []) = tickets_rule v"
  by (cases v) (auto simp: field_defs rule_defs split: jsnum.splits)

lemma date_iff: "(issues_of (fst (refine is_valid_Date msg z_date p v li)) = []) = date_rule v"
  by (cases v) (auto simp: field_defs rule_defs is_valid_Date_def split: option.splits)

lemma payment_iff:
  "(issues_of (fst (z_enum [''Card'', ''UPI'', ''Net Banking'', ''Wallet''] params p v li)) = []) =
     payment_rule v"
  by (cases v) (auto simp: field_defs rule_defs)

lemma seat_iff:
  "(issues_of (fst (z_enum [''Window'', ''Aisle'', ''Center''] params p v li)) = []) = seat_rule v"
  by (cases v) (auto simp: field_defs rule_defs)

lemma requests_iff: "(issues_of (fst (optional z_string p v li)) = []) = requests_rule v"
  by (cases v) (auto simp: field_defs rule_defs)

lemmas field_iffs = name_iff email_iff phone_iff tickets_iff date_iff payment_iff seat_iff
  requests_iff

lemma rule_iff:
  assumes "(k, t) \<in> set (shape em pcp)"
  shows "(check_field t k v = []) = rule_of em k v"
proof -
  have "list_all (\<lambda>(k, t). (check_field t k v = []) = rule_of em k v) (shape em pcp)"
    by (simp add: shape_def check_field_def rule_of_def field_iffs)
  then show ?thesis using assms by (auto simp: list_all_iff)
qed

lemma all_issues_rules: "(all_issues (field_results em pcp kvs) = []) = satisfies_rules em kvs"
  by (simp add: all_issues_def field_results_def shape_def satisfies_rules_def field_iffs)

lemma has_prop_defined: "get_prop kvs k \<noteq> JUndefined \<Longrightarrow> has_prop kvs k"
  by (auto simp: get_prop_def has_prop_def split: option.splits)

lemma final_normalized:
  assumes "satisfies_rules em kvs"
  shows "finalObject (field_results em pcp kvs) = normalized kvs"
proof -
  have h: "has_prop kvs ''name''" "has_prop kvs ''email''" "has_prop kvs ''phone''"
    "has_prop kvs ''tickets''" "has_prop kvs ''date''" "has_prop kvs ''time''"
    "has_prop kvs ''payment''" "has_prop kvs ''seat''"
    using assms by (auto simp: satisfies_rules_def rule_defs intro!: has_prop_defined)
  have u: "(get_prop kvs ''specialRequests'' \<noteq> JUndefined \<or> has_prop kvs ''specialRequests'') =
           has_prop kvs ''specialRequests''"
    using has_prop_defined by blast
  have r: "name_rule (get_prop kvs ''name'')" "email_rule em (get_prop kvs ''email'')"
    "phone_rule (get_prop kvs ''phone'')" "tickets_rule (get_prop kvs ''tickets'')"
    "date_rule (get_prop kvs ''date'')" "date_rule (get_prop kvs ''time'')"
    "payment_rule (get_prop kvs ''payment'')" "seat_rule (get_prop kvs ''seat'')"
    "requests_rule (get_prop kvs ''specialRequests'')"
    using assms by (simp_all add: satisfies_rules_def)
  show ?thesis
    using h u r
    by (simp add: finalObject_def field_results_def shape_def normalized_def field_names_def
        name_ok email_ok phone_ok tickets_ok date_ok payment_ok seat_ok requests_ok)
qed

subsection \<open>The entry of a field in the error object\<close>

text \<open>
  The keys of the shape are distinct and every issue of a field is keyed by the field, so
  the entry of a field is the first issue of that field, wherever the other fields' issues
  stand.
\<close>

lemma map_of_none:
  "(\<And>i. i \<in> set xs \<Longrightarrow> g i \<noteq> k0) \<Longrightarrow> map_of (map (\<lambda>i. (g i, h i)) xs) k0 = None"
  by (induction xs) auto

lemma map_of_first:
  "(\<And>i. i \<in> set xs \<Longrightarrow> g i = k0) \<Longrightarrow>
     map_of (map (\<lambda>i. (g i, h i)) xs) k0 = (case xs of [] \<Rightarrow> None | i # _ \<Rightarrow> Some (h i))"
  by (cases xs) auto

lemma map_of_app:
  "map_of (map f (xs @ ys)) k0 =
     (case map_of (map f xs) k0 of None \<Rightarrow> map_of (map f ys) k0 | Some e \<Rightarrow> Some e)"
  by (simp add: map_add_def)

lemma map_of_absent:
  assumes "k0 \<notin> set (map fst sh)"
    and "\<And>k t i. (k, t) \<in> set sh \<Longrightarrow> i \<in> set (F k t) \<Longrightarrow> g i = k"
  shows "map_of (map (\<lambda>i. (g i, h i)) (concat (map (\<lambda>(k, t). F k t) sh))) k0 = None"
proof (rule map_of_none)
  fix i
  assume "i \<in> set (concat (map (\<lambda>(k, t). F k t) sh))"
  then obtain k t where "(k, t) \<in> set sh" "i \<in> set (F k t)" by auto
  then show "g i \<noteq> k0" using assms by force
qed

lemma map_of_field:
  assumes "distinct (map fst sh)" and "(k0, t0) \<in> set sh"
    and "\<And>k t i. (k, t) \<in> set sh \<Longrightarrow> i \<in> set (F k t) \<Longrightarrow> g i = k"
  shows "map_of (map (\<lambda>i. (g i, h i)) (concat (map (\<lambda>(k, t). F k t) sh))) k0 =
           (case F k0 t0 of [] \<Rightarrow> None | i # _ \<Rightarrow> Some (h i))"
  using assms
proof (induction sh)
  case Nil
  then show ?case by simp
next
  case (Cons a sh)
  obtain k t where a: "a = (k, t)" by (cases a)
  have own: "\<And>i. i \<in> set (F k t) \<Longrightarrow> g i = k"
    using Cons.prems(3) [of k t] a by simp
  have rest: "\<And>k' t' i. (k', t') \<in> set sh \<Longrightarrow> i \<in> set (F k' t') \<Longrightarrow> g i = k'"
    using Cons.prems(3) by (meson list.set_intros(2))
  have nk: "k \<notin> set (map fst sh)" and d: "distinct (map fst sh)"
    using Cons.prems(1) a by simp_all
  have c: "concat (map (\<lambda>(k, t). F k t) (a # sh)) = F k t @ concat (map (\<lambda>(k, t). F k t) sh)"
    by (simp add: a)
  show ?case
  proof (cases "k = k0")
    case True
    have "(k0, t0) \<notin> set sh" using nk True by force
    then have t: "t = t0" using Cons.prems(2) a True by simp
    have 1: "map_of (map (\<lambda>i. (g i, h i)) (F k t)) k0 =
               (case F k t of [] \<Rightarrow> None | i # _ \<Rightarrow> Some (h i))"
      using own True by (intro map_of_first) simp
    have 2: "map_of (map (\<lambda>i. (g i, h i)) (concat (map (\<lambda>(k, t). F k t) sh))) k0 = None"
      using nk True rest by (intro map_of_absent) auto
    show ?thesis
      unfolding c map_of_app 1 2 by (simp add: True t split: list.splits)
  next
    case False
    have 1: "map_of (map (\<lambda>i. (g i, h i)) (F k t)) k0 = None"
      using own False by (intro map_of_none) auto
    have m: "(k0, t0) \<in> set sh" using Cons.prems(2) a False by simp
    have 2: "map_of (map (\<lambda>i. (g i, h i)) (concat (map (\<lambda>(k, t). F k t) sh))) k0 =
               (case F k0 t0 of [] \<Rightarrow> None | i # _ \<Rightarrow> Some (h i))"
      using d m rest by (rule Cons.IH)
    show ?thesis
      unfolding c map_of_app 1 2 by simp
  qed
qed

lemma all_issues_fields:
  "all_issues (field_results em pcp kvs) =
     concat (map (\<lambda>(k, t). check_field t k (get_prop kvs k)) (shape em pcp))"
  by (simp add: all_issues_def field_results_def check_field_def shape_def)

lemma distinct_shape: "distinct (map fst (shape em pcp))"
  by (simp add: shape_def)

lemma check_field_path:
  assumes "(k, t) \<in> set (shape em pcp)" and "i \<in> set (check_field t k v)"
  shows "join_dot (path i) = k"
proof -
  from assms(1) have "t \<in> set (map snd (shape em pcp))" by force
  then have "path i = [k]" using assms(2) shape_paths unfolding check_field_def by blast
  then show ?thesis by simp
qed

lemma error_entry:
  assumes "(k, t) \<in> set (shape em pcp)"
  shows "map_of (parseErrorSchema (all_issues (field_results em pcp kvs)) []) k =
           (case check_field t k (get_prop kvs k) of
              [] \<Rightarrow> None
            | i # _ \<Rightarrow> Some \<lparr> fe_message = message i, fe_type = code i \<rparr>)"
proof -
  have "map_of (map (\<lambda>i. (join_dot (path i), \<lparr> fe_message = message i, fe_type = code i \<rparr>))
          (concat (map (\<lambda>(k, t). check_field t k (get_prop kvs k)) (shape em pcp)))) k =
        (case check_field t k (get_prop kvs k) of
              [] \<Rightarrow> None
            | i # _ \<Rightarrow> Some \<lparr> fe_message = message i, fe_type = code i \<rparr>)"
    using distinct_shape assms check_field_path by (rule map_of_field)
  then show ?thesis
    by (simp add: map_of_parseErrorSchema all_issues_fields)
qed

lemma resolver_errors:
  "\<not> promise_like kvs \<Longrightarrow> \<exists>res. fst (zodResolver (schema em pcp) (JObj kvs) li) = Returns res \<and>
     res_errors res = parseErrorSchema (all_issues (field_results em pcp kvs)) []"
  by (simp add: resolver_object)

subsection \<open>The state after validation\<close>

lemma snd_name: "snd (string_min n msg z_string p v li) = li"
  by (cases v) (auto simp: field_defs)

lemma snd_email: "snd (email em msg z_string p v li) = li"
  by (cases v) (auto simp: field_defs)

lemma snd_phone:
  "snd (regex phone_re msg z_string p v li) = (case v of JStr s \<Rightarrow> 0 | _ \<Rightarrow> li)"
  by (cases v) (auto simp: field_defs split: option.splits)

lemma snd_tickets: "snd (number_min n msg z_number p v li) = li"
  by (cases v) (auto simp: field_defs)

lemma snd_date: "snd (refine c msg z_date p v li) = li"
  by (cases v) (auto simp: field_defs split: option.splits)

lemma snd_enum: "snd (z_enum vals params p v li) = li"
  by (cases v) (auto simp: field_defs)

lemma snd_requests: "snd (optional z_string p v li) = li"
  by (cases v) (auto simp: field_defs)

lemma resolver_state:
  "snd (zodResolver (schema em pcp) data li) =
     (case data of
        JObj kvs \<Rightarrow>
          (if promise_like kvs then li
           else (case get_prop kvs ''phone'' of JStr s \<Rightarrow> 0 | _ \<Rightarrow> li))
      | _ \<Rightarrow> li)"
  by (cases data)
     (simp_all add: zodResolver_def safeParse_def schema_def z_object_def split_beta shape_def
        snd_name snd_email snd_phone snd_tickets snd_date snd_enum snd_requests
        split: outcome.splits SafeParseReturn.splits)

lemma resolver_stateless:
  "fst (zodResolver (schema em pcp) data li) = fst (zodResolver (schema em pcp) data li')"
proof (cases "getParsedType data = T_object")
  case True
  then obtain kvs where "data = JObj kvs" and "\<not> promise_like kvs"
    using plain_object by blast
  then show ?thesis by (simp add: resolver_object)
next
  case False
  then show ?thesis by (simp add: resolver_other)
qed

subsection \<open>Accepted inputs and the concrete bookings\<close>

lemma rules_accepted:
  assumes "satisfies_rules em kvs" and "\<not> promise_like kvs"
  shows "fst (zodResolver (schema em pcp) (JObj kvs) li) =
           Returns \<lparr> res_values = JObj (normalized kvs), res_errors = [] \<rparr>"
  using assms by (simp add: resolver_object all_issues_rules final_normalized)

lemma normalized_get:
  "k \<in> set field_names \<Longrightarrow> get_prop (normalized kvs) k = get_prop kvs k"
  by (auto simp: normalized_def get_prop_def has_prop_def map_of_map_restrict restrict_map_def
      split: option.splits)

lemma normalized_has:
  "k \<in> set field_names \<Longrightarrow> has_prop (normalized kvs) k = has_prop kvs k"
  by (auto simp: normalized_def has_prop_def map_of_map_restrict restrict_map_def)

lemma get_prop_Cons: "get_prop ((k, v) # kvs) k' = (if k' = k then v else get_prop kvs k')"
  by (simp add: get_prop_def)

lemma valid_booking_rules: "satisfies_rules zod_emailRegex valid_booking"
  by (simp add: satisfies_rules_def valid_booking_def get_prop_def rule_defs zod_emailRegex_def
      local_ok_def domain_ok_def label_ok_def is_alnum_def is_alpha_def is_digit_def)

lemma valid_booking_plain: "\<not> promise_like valid_booking"
  by (simp add: promise_like_def valid_booking_def get_prop_def)

lemma valid_booking_normalized: "normalized valid_booking = valid_booking"
  by (simp add: normalized_def field_names_def valid_booking_def has_prop_def get_prop_def)

lemmas eval_defs = resolver_object field_results_def shape_def all_issues_def finalObject_def
  field_defs get_prop_def has_prop_def is_valid_Date_def is_digit_def type_issue_def
  default_invalid_type_def default_invalid_enum_value_def default_invalid_date_def
  keeps_default_def promise_like_def zod_emailRegex_def local_ok_def domain_ok_def label_ok_def
  is_alnum_def is_alpha_def

lemma field_message:
  assumes "(k, t) \<in> set (shape em pcp)" and "\<not> promise_like kvs"
  shows "\<exists>res. fst (zodResolver (schema em pcp) (JObj kvs) li) = Returns res \<and>
           res_errors res = parseErrorSchema (all_issues (field_results em pcp kvs)) [] \<and>
           error_message res k =
             (case check_field t k (get_prop kvs k) of [] \<Rightarrow> None | i # _ \<Rightarrow> Some (message i))"
proof -
  obtain res where r: "fst (zodResolver (schema em pcp) (JObj kvs) li) = Returns res"
    and e: "res_errors res = parseErrorSchema (all_issues (field_results em pcp kvs)) []"
    using resolver_errors [OF assms(2)] by blast
  have "error_message res k =
          (case check_field t k (get_prop kvs k) of [] \<Rightarrow> None | i # _ \<Rightarrow> Some (message i))"
    by (simp add: error_message_def e error_entry [OF assms(1)] split: list.splits)
  then show ?thesis using r e by blast
qed

lemma shape_keys: "map fst (shape em pcp) = field_names"
  by (simp add: shape_def field_names_def)

lemma worded_first_message:
  assumes "(k, t) \<in> set (shape em pcp)" and "k \<in> set worded_fields"
    and "check_field t k v = i # is"
  shows "message i = violation_message k v"
proof -
  have "list_all (\<lambda>(k, t). k \<in> set worded_fields \<longrightarrow>
          (\<forall>i is. check_field t k v = i # is \<longrightarrow> message i = violation_message k v))
          (shape em pcp)"
    by (cases v)
       (auto simp: shape_def worded_fields_def check_field_def violation_message_def field_defs
          type_issue_def split: if_splits option.splits)
  then show ?thesis using assms by (auto simp: list_all_iff)
qed

lemma careless_result:
  "fst (zodResolver (schema zod_emailRegex pcp) (JObj careless_booking) 0) =
     Returns \<lparr> res_values = JObj [],
               res_errors =
                 [(''name'', \<lparr> fe_message = ''Name is required'', fe_type = too_small \<rparr>),
                  (''email'', \<lparr> fe_message = ''Invalid email address'', fe_type = invalid_string \<rparr>),
                  (''phone'', \<lparr> fe_message = ''Phone number must be 10 digits'',
                                 fe_type = invalid_string \<rparr>),
                  (''tickets'', \<lparr> fe_message = ''At least one ticket is required'',
                                   fe_type = too_small \<rparr>)] \<rparr>"
  by (simp add: eval_defs careless_booking_def)

lemma tickets_member:
  "(''tickets'', number_min (Finite 1) ''At least one ticket is required'' z_number)
     \<in> set (shape em pcp)"
  by (simp add: shape_def)

lemma date_member:
  "(''date'', refine is_valid_Date ''Booking date is required'' z_date) \<in> set (shape em pcp)"
  by (simp add: shape_def)

lemma time_member:
  "(''time'', refine is_valid_Date ''Show/travel time is required'' z_date) \<in> set (shape em pcp)"
  by (simp add: shape_def)

lemma payment_member:
  "(''payment'', z_enum [''Card'', ''UPI'', ''Net Banking'', ''Wallet'']
                   (pcp (JStr ''Please select a payment option''))) \<in> set (shape em pcp)"
  by (simp add: shape_def)

lemma seat_member:
  "(''seat'', z_enum [''Window'', ''Aisle'', ''Center'']
                (pcp (JStr ''Please select a seat preference''))) \<in> set (shape em pcp)"
  by (simp add: shape_def)

lemma date_messages:
  "check_field (refine is_valid_Date msg z_date) k v = i # is \<Longrightarrow>
     message i = ''Invalid date'' \<or> message i = ''Required'' \<or>
     message i = ''Expected date, received '' @ type_name (getParsedType v)"
  by (cases v)
     (auto simp: check_field_def field_defs type_issue_def default_invalid_type_def
        default_invalid_date_def is_valid_Date_def split: option.splits if_splits)

lemma enum_first_message:
  "check_field (z_enum vals errorMap) k v = i # is \<Longrightarrow>
     message i =
       (case v of
          JStr s \<Rightarrow> errorMap invalid_enum_value v (default_invalid_enum_value vals s)
        | _ \<Rightarrow> errorMap invalid_type v (default_invalid_type (joinValues vals) (getParsedType v)))"
  by (cases v) (auto simp: check_field_def z_enum_def split: if_splits)

lemma enum_entries:
  assumes "\<not> promise_like kvs"
  shows "\<exists>res. fst (zodResolver (schema em pcp) (JObj kvs) li) = Returns res \<and>
           (\<not> payment_rule (get_prop kvs ''payment'') \<longrightarrow>
              error_message res ''payment'' =
                Some (case get_prop kvs ''payment'' of
                        JStr s \<Rightarrow>
                          pcp (JStr ''Please select a payment option'') invalid_enum_value
                            (get_prop kvs ''payment'')
                            (default_invalid_enum_value
                               [''Card'', ''UPI'', ''Net Banking'', ''Wallet''] s)
                      | _ \<Rightarrow>
                          pcp (JStr ''Please select a payment option'') invalid_type
                            (get_prop kvs ''payment'')
                            (default_invalid_type
                               (joinValues [''Card'', ''UPI'', ''Net Banking'', ''Wallet''])
                               (getParsedType (get_prop kvs ''payment''))))) \<and>
           (\<not> seat_rule (get_prop kvs ''seat'') \<longrightarrow>
              error_message res ''seat'' =
                Some (case get_prop kvs ''seat'' of
                        JStr s \<Rightarrow>
                          pcp (JStr ''Please select a seat preference'') invalid_enum_value
                            (get_prop kvs ''seat'')
                            (default_invalid_enum_value [''Window'', ''Aisle'', ''Center''] s)
                      | _ \<Rightarrow>
                          pcp (JStr ''Please select a seat preference'') invalid_type
                            (get_prop kvs ''seat'')
                            (default_invalid_type (joinValues [''Window'', ''Aisle'', ''Center''])
                               (getParsedType (get_prop kvs ''seat'')))))"
proof -
  let ?tp = "z_enum [''Card'', ''UPI'', ''Net Banking'', ''Wallet'']
               (pcp (JStr ''Please select a payment option''))"
  let ?ts = "z_enum [''Window'', ''Aisle'', ''Center'']
               (pcp (JStr ''Please select a seat preference''))"
  obtain res where r: "fst (zodResolver (schema em pcp) (JObj kvs) li) = Returns res"
    and e: "res_errors res = parseErrorSchema (all_issues (field_results em pcp kvs)) []"
    using resolver_errors [OF assms] by blast
  have p: "error_message res ''payment'' =
          (case check_field ?tp ''payment'' (get_prop kvs ''payment'') of
             [] \<Rightarrow> None | i # _ \<Rightarrow> Some (message i))"
    by (simp add: error_message_def e error_entry [OF payment_member] split: list.splits)
  have s: "error_message res ''seat'' =
          (case check_field ?ts ''seat'' (get_prop kvs ''seat'') of
             [] \<Rightarrow> None | i # _ \<Rightarrow> Some (message i))"
    by (simp add: error_message_def e error_entry [OF seat_member] split: list.splits)
  have pv: "(check_field ?tp ''payment'' (get_prop kvs ''payment'') = []) =
              payment_rule (get_prop kvs ''payment'')"
    by (simp add: check_field_def payment_iff)
  have sv: "(check_field ?ts ''seat'' (get_prop kvs ''seat'') = []) =
              seat_rule (get_prop kvs ''seat'')"
    by (simp add: check_field_def seat_iff)
  show ?thesis
    using r p s pv sv
      enum_first_message [of "[''Card'', ''UPI'', ''Net Banking'', ''Wallet'']"
        "pcp (JStr ''Please select a payment option'')" "''payment''" "get_prop kvs ''payment''"]
      enum_first_message [of "[''Window'', ''Aisle'', ''Center'']"
        "pcp (JStr ''Please select a seat preference'')" "''seat''" "get_prop kvs ''seat''"]
    by (auto split: list.splits)
qed

section \<open>The claims\<close>



text \<open>
  C2, as amended. Validation does not stop at the first failing field. For every plain
  object, the error map has an entry for each of the nine fields whose value violates
  the field's rule, and for no other of them. For name, email, phone, tickets and
  specialRequests the entry carries the message written in the schema when the value has
  the field's type, and the library's message for a wrong type otherwise ("Required"
  when the value is absent). Which message the entries of date, time, payment and seat
  carry is not stated here.
\<close>

theorem every_violation_reported:
  assumes "\<not> promise_like kvs"
  shows "\<exists>res. fst (zodResolver (schema em pcp) (JObj kvs) li) = Returns res \<and>
           list_all (\<lambda>k. (error_message res k = None) = rule_of em k (get_prop kvs k))
             field_names \<and>
           list_all (\<lambda>k. \<not> rule_of em k (get_prop kvs k) \<longrightarrow>
                          error_message res k = Some (violation_message k (get_prop kvs k)))
             worded_fields"
proof -
  obtain res where r: "fst (zodResolver (schema em pcp) (JObj kvs) li) = Returns res"
    and e: "res_errors res = parseErrorSchema (all_issues (field_results em pcp kvs)) []"
    using resolver_errors [OF assms] by blast
  have entry: "error_message res k =
          (case check_field t k (get_prop kvs k) of [] \<Rightarrow> None | i # _ \<Rightarrow> Some (message i))"
    if "(k, t) \<in> set (shape em pcp)" for k t
    by (simp add: error_message_def e error_entry [OF that] split: list.splits)
  have 1: "(error_message res k = None) = rule_of em k (get_prop kvs k)"
    if "k \<in> set field_names" for k
  proof -
    from that obtain t where t: "(k, t) \<in> set (shape em pcp)"
      unfolding shape_keys [of em pcp, symmetric] by auto
    show ?thesis
      using entry [OF t] rule_iff [OF t, of "get_prop kvs k"] by (auto split: list.splits)
  qed
  have 2: "error_message res k = Some (violation_message k (get_prop kvs k))"
    if "k \<in> set worded_fields" and "\<not> rule_of em k (get_prop kvs k)" for k
  proof -
    from that(1) have "k \<in> set field_names"
      by (auto simp: worded_fields_def field_names_def)
    then obtain t where t: "(k, t) \<in> set (shape em pcp)"
      unfolding shape_keys [of em pcp, symmetric] by auto
    show ?thesis
      using entry [OF t] rule_iff [OF t, of "get_prop kvs k"] that(2)
        worded_first_message [OF t that(1)]
      by (auto split: list.splits)
  qed
  show ?thesis using r 1 2 by (auto simp: list_all_iff)
qed

text \<open>
  C2 as amended, at a concrete input: a booking that breaks the rules of name, email,
  phone and tickets at once gets the four entries, each with the message of its field.
\<close>

theorem every_violation_reported_witness:
  "\<not> promise_like careless_booking \<and>
   fst (zodResolver (schema zod_emailRegex keeps_default) (JObj careless_booking) 0) =
     Returns \<lparr> res_values = JObj [],
               res_errors =
                 [(''name'', \<lparr> fe_message = ''Name is required'', fe_type = too_small \<rparr>),
                  (''email'', \<lparr> fe_message = ''Invalid email address'', fe_type = invalid_string \<rparr>),
                  (''phone'', \<lparr> fe_message = ''Phone number must be 10 digits'',
                                 fe_type = invalid_string \<rparr>),
                  (''tickets'', \<lparr> fe_message = ''At least one ticket is required'',
                                   fe_type = too_small \<rparr>)] \<rparr>"
proof -
  have m: "\<not> promise_like careless_booking"
    by (simp add: promise_like_def careless_booking_def get_prop_def)
  show ?thesis
    using m every_violation_reported [OF m, where em = zod_emailRegex and pcp = keeps_default
        and li = 0] careless_result [of keeps_default]
    by simp
qed

text \<open>
  C2 as stated fails: in a booking with no name and a malformed email, both fields are
  reported, but the entry of the name carries "Required", the library's message for a
  missing value, and not "Name is required", the message of the name's rule.
\<close>

theorem missing_name_counterexample:
  "\<not> name_rule (get_prop nameless_booking ''name'') \<and>
   fst (zodResolver (schema zod_emailRegex keeps_default) (JObj nameless_booking) 0) =
     Returns \<lparr> res_values = JObj [],
               res_errors =
                 [(''name'', \<lparr> fe_message = ''Required'', fe_type = invalid_type \<rparr>),
                  (''email'', \<lparr> fe_message = ''Invalid email address'',
                                 fe_type = invalid_string \<rparr>)] \<rparr>"
  by (simp add: eval_defs nameless_booking_def name_rule_def)

text \<open>
  C3, as amended. When the input is a plain object, every rule holds and
  \<^verbatim>\<open>specialRequests\<close> is absent (or \<^verbatim>\<open>undefined\<close>), validation succeeds and the record's
  \<^verbatim>\<open>specialRequests\<close> is \<^verbatim>\<open>undefined\<close>; the key is in the record exactly when it was in the
  input. The schema says \<^verbatim>\<open>z.string().optional()\<close> and applies no default.
\<close>

theorem absent_requests_stay_absent:
  assumes "satisfies_rules em kvs" and "\<not> promise_like kvs"
    and "get_prop kvs ''specialRequests'' = JUndefined"
  shows "fst (zodResolver (schema em pcp) (JObj kvs) li) =
           Returns \<lparr> res_values = JObj (normalized kvs), res_errors = [] \<rparr> \<and>
         get_prop (normalized kvs) ''specialRequests'' = JUndefined \<and>
         has_prop (normalized kvs) ''specialRequests'' = has_prop kvs ''specialRequests''"
  using assms
  by (simp add: rules_accepted normalized_get normalized_has field_names_def)

text \<open>
  C3 as amended, at a concrete input: Ann's booking has no \<^verbatim>\<open>specialRequests\<close>, and
  neither has the record.
\<close>

theorem absent_requests_stay_absent_witness:
  "satisfies_rules zod_emailRegex valid_booking \<and> \<not> promise_like valid_booking \<and>
   get_prop valid_booking ''specialRequests'' = JUndefined \<and>
   fst (zodResolver (schema zod_emailRegex keeps_default) (JObj valid_booking) 0) =
     Returns \<lparr> res_values = JObj valid_booking, res_errors = [] \<rparr> \<and>
   \<not> has_prop valid_booking ''specialRequests''"
proof -
  have u: "get_prop valid_booking ''specialRequests'' = JUndefined"
    by (simp add: valid_booking_def get_prop_def)
  have h: "\<not> has_prop valid_booking ''specialRequests''"
    by (simp add: valid_booking_def has_prop_def)
  show ?thesis
    using absent_requests_stay_absent [OF valid_booking_rules valid_booking_plain u,
        where pcp = keeps_default and li = 0] u h
    by (simp add: valid_booking_rules valid_booking_plain valid_booking_normalized)
qed

text \<open>
  C3 as stated fails: Ann's booking is valid and has no \<^verbatim>\<open>specialRequests\<close>; the record
  is the booking itself, and its \<^verbatim>\<open>specialRequests\<close> is \<^verbatim>\<open>undefined\<close>, not the empty
  string.
\<close>

theorem absent_requests_counterexample:
  "fst (zodResolver (schema zod_emailRegex keeps_default) (JObj valid_booking) 0) =
     Returns \<lparr> res_values = JObj valid_booking, res_errors = [] \<rparr> \<and>
   get_prop valid_booking ''specialRequests'' = JUndefined \<and>
   get_prop valid_booking ''specialRequests'' \<noteq> JStr ''''"
proof -
  have u: "get_prop valid_booking ''specialRequests'' = JUndefined"
    by (simp add: valid_booking_def get_prop_def)
  show ?thesis
    using rules_accepted [OF valid_booking_rules valid_booking_plain,
        where pcp = keeps_default and li = 0] u
    by (simp add: valid_booking_normalized)
qed

text \<open>
  C4, as amended. In a plain object: when \<^verbatim>\<open>tickets\<close> is a number below 1, validation fails
  and the error map has the entry "At least one ticket is required" for \<^verbatim>\<open>tickets\<close>. When
  it is a number of at least 1, integer or not, the error map has no entry for
  \<^verbatim>\<open>tickets\<close>: the schema says \<^verbatim>\<open>z.number().min(1, ...)\<close> and has no integer check.
\<close>

theorem tickets_below_one_rejected:
  assumes "get_prop kvs ''tickets'' = JNum x" and "\<not> promise_like kvs"
  shows "\<exists>res. fst (zodResolver (schema em pcp) (JObj kvs) li) = Returns res \<and>
           (num_lt x (Finite 1) \<longrightarrow>
              res_errors res \<noteq> [] \<and>
              error_message res ''tickets'' = Some ''At least one ticket is required'') \<and>
           (tickets_rule (JNum x) \<longrightarrow> error_message res ''tickets'' = None)"
proof -
  let ?t = "number_min (Finite 1) ''At least one ticket is required'' z_number"
  obtain res where r: "fst (zodResolver (schema em pcp) (JObj kvs) li) = Returns res"
    and m: "error_message res ''tickets'' =
          (case check_field ?t ''tickets'' (get_prop kvs ''tickets'') of
             [] \<Rightarrow> None | i # _ \<Rightarrow> Some (message i))"
    using field_message [OF tickets_member assms(2)] by blast
  have low: "num_lt x (Finite 1) \<Longrightarrow>
          check_field ?t ''tickets'' (JNum x) =
            [\<lparr> code = too_small, path = [''tickets''],
               message = ''At least one ticket is required'' \<rparr>]"
    by (cases x) (simp_all add: check_field_def field_defs)
  have ok: "tickets_rule (JNum x) \<Longrightarrow> check_field ?t ''tickets'' (JNum x) = []"
    using rule_iff [OF tickets_member, where v = "JNum x" and em = em]
    by (simp add: rule_of_def)
  have ne: "error_message res ''tickets'' \<noteq> None \<Longrightarrow> res_errors res \<noteq> []"
    by (auto simp: error_message_def)
  show ?thesis
    using r m low ok ne assms(1) by auto
qed

text \<open>
  C4 as amended, at a concrete input: zero tickets.
\<close>

theorem tickets_below_one_rejected_witness:
  "get_prop careless_booking ''tickets'' = JNum (Finite 0) \<and>
   \<not> promise_like careless_booking \<and>
   num_lt (Finite 0) (Finite 1) \<and>
   (\<exists>res. fst (zodResolver (schema zod_emailRegex keeps_default) (JObj careless_booking) 0) =
            Returns res \<and>
      res_errors res \<noteq> [] \<and>
      error_message res ''tickets'' = Some ''At least one ticket is required'')"
proof -
  have g: "get_prop careless_booking ''tickets'' = JNum (Finite 0)"
    by (simp add: get_prop_def careless_booking_def)
  have m: "\<not> promise_like careless_booking"
    by (simp add: promise_like_def careless_booking_def get_prop_def)
  show ?thesis
    using tickets_below_one_rejected [OF g m, where em = zod_emailRegex
        and pcp = keeps_default and li = 0] g m
    by auto
qed

text \<open>
  C4 as stated fails: a booking with one and a half tickets, valid otherwise, is accepted
  as it is.
\<close>

theorem fractional_tickets_counterexample:
  "fst (zodResolver (schema zod_emailRegex keeps_default) (JObj fractional_booking) 0) =
     Returns \<lparr> res_values = JObj fractional_booking, res_errors = [] \<rparr>"
  by (simp add: eval_defs fractional_booking_def)

text \<open>
  C6. \<^verbatim>\<open>z.date()\<close> aborts on \<^verbatim>\<open>null\<close> and on an invalid \<^verbatim>\<open>Date\<close> before the refinement
  that carries "Booking date is required" and "Show/travel time is required" is called:
  the error map has zod's default messages instead.
\<close>

theorem date_message_unreached:
  "fst (zodResolver (schema zod_emailRegex pcp) (JObj undated_booking) 0) =
     Returns \<lparr> res_values = JObj [],
               res_errors =
                 [(''date'', \<lparr> fe_message = ''Expected date, received null'',
                                fe_type = invalid_type \<rparr>),
                  (''time'', \<lparr> fe_message = ''Invalid date'', fe_type = invalid_date \<rparr>)] \<rparr>"
  by (simp add: eval_defs undated_booking_def)

text \<open>
  C7. Validation never throws. On every input, an object or not, the resolver returns a
  result, of one of two shapes: an empty error map with a record (the input is then an
  object that satisfies every rule, and the record is the normalized input), or a
  non-empty error map with no values. The branch of \<^verbatim>\<open>handleResult\<close> that throws is never
  taken.
\<close>

theorem validation_never_throws:
  "\<exists>res. fst (zodResolver (schema em pcp) data li) = Returns res \<and>
     ((res_errors res = [] \<and>
       (\<exists>kvs. data = JObj kvs \<and> satisfies_rules em kvs \<and> res_values res = JObj (normalized kvs))) \<or>
      (res_errors res \<noteq> [] \<and> res_values res = JObj []))"
proof (cases "getParsedType data = T_object")
  case True
  then obtain kvs where d: "data = JObj kvs" and n: "\<not> promise_like kvs"
    using plain_object by blast
  show ?thesis
  proof (cases "all_issues (field_results em pcp kvs) = []")
    case True
    then have "satisfies_rules em kvs" by (simp add: all_issues_rules)
    then show ?thesis
      using True d n by (simp add: resolver_object final_normalized)
  next
    case False
    then have "parseErrorSchema (all_issues (field_results em pcp kvs)) [] \<noteq> []"
      by (rule parseErrorSchema_nonempty)
    then show ?thesis
      using False d n by (simp add: resolver_object)
  qed
next
  case False
  then show ?thesis by (simp add: resolver_other)
qed

text \<open>
  C8. Validation is deterministic and leaves no trace: validating the same input again, in
  the state the first validation left, gives the same result and the same state; the
  result does not depend on the \<^verbatim>\<open>lastIndex\<close> of the phone expression, and from the
  initial state (\<^verbatim>\<open>lastIndex = 0\<close>) validation leaves the state as it found it.
\<close>

theorem validation_deterministic:
  "zodResolver (schema em pcp) data (snd (zodResolver (schema em pcp) data li)) =
     zodResolver (schema em pcp) data li \<and>
   snd (zodResolver (schema em pcp) data 0) = 0"
proof -
  let ?s = "snd (zodResolver (schema em pcp) data li)"
  have 1: "fst (zodResolver (schema em pcp) data ?s) = fst (zodResolver (schema em pcp) data li)"
    by (rule resolver_stateless)
  have 2: "snd (zodResolver (schema em pcp) data ?s) = ?s"
    by (simp add: resolver_state split: jsvalue.splits)
  have 3: "snd (zodResolver (schema em pcp) data 0) = 0"
    by (simp add: resolver_state split: jsvalue.splits)
  show ?thesis using 1 2 3 by (simp add: prod_eq_iff)
qed

text \<open>
  C9. The validator has no upper bound on \<^verbatim>\<open>tickets\<close>: in a booking that is a plain object
  and satisfies the rules, any finite number of tickets of at least 1 in place of the
  booking's own is accepted and is the record's \<^verbatim>\<open>tickets\<close>.
\<close>

theorem tickets_unbounded:
  assumes "satisfies_rules em kvs" and "\<not> promise_like kvs" and "1 \<le> q"
  shows "fst (zodResolver (schema em pcp) (JObj ((''tickets'', JNum (Finite q)) # kvs)) li) =
           Returns \<lparr> res_values = JObj (normalized ((''tickets'', JNum (Finite q)) # kvs)),
                     res_errors = [] \<rparr> \<and>
         get_prop (normalized ((''tickets'', JNum (Finite q)) # kvs)) ''tickets'' = JNum (Finite q)"
proof -
  have "satisfies_rules em ((''tickets'', JNum (Finite q)) # kvs)"
    using assms by (simp add: satisfies_rules_def get_prop_Cons tickets_rule_def)
  moreover have "\<not> promise_like ((''tickets'', JNum (Finite q)) # kvs)"
    using assms(2) by (simp add: promise_like_def get_prop_Cons)
  ultimately show ?thesis
    by (simp add: rules_accepted normalized_get field_names_def get_prop_Cons)
qed

text \<open>
  C9, at a concrete input: a thousand tickets, outside the form's list of 1 to 10.
\<close>

theorem tickets_unbounded_witness:
  "satisfies_rules zod_emailRegex valid_booking \<and> \<not> promise_like valid_booking \<and>
   (1::rat) \<le> 1000 \<and>
   fst (zodResolver (schema zod_emailRegex keeps_default)
          (JObj ((''tickets'', JNum (Finite 1000)) # valid_booking)) 0) =
     Returns \<lparr> res_values =
                 JObj [(''name'', JStr ''Ann''), (''email'', JStr ''ann@example.com''),
                       (''phone'', JStr ''9876543210''), (''tickets'', JNum (Finite 1000)),
                       (''date'', JDate (Some 1793577600000)),
                       (''time'', JDate (Some 1793613600000)),
                       (''payment'', JStr ''UPI''), (''seat'', JStr ''Aisle'')],
               res_errors = [] \<rparr>"
proof -
  have q: "(1::rat) \<le> 1000" by simp
  show ?thesis
    using tickets_unbounded [OF valid_booking_rules valid_booking_plain q,
        where pcp = keeps_default and li = 0] valid_booking_rules valid_booking_plain
    by (simp add: normalized_def field_names_def has_prop_def get_prop_def valid_booking_def)
qed

text \<open>
  C10. The name rule looks at the length only: in a booking that is a plain object and
  satisfies the rules, a non-empty name made of whitespace alone is accepted and is the
  record's \<^verbatim>\<open>name\<close>, unchanged.
\<close>

theorem whitespace_name_accepted:
  assumes "satisfies_rules em kvs" and "\<not> promise_like kvs"
    and "s \<noteq> []" and "list_all is_whitespace s"
  shows "fst (zodResolver (schema em pcp) (JObj ((''name'', JStr s) # kvs)) li) =
           Returns \<lparr> res_values = JObj (normalized ((''name'', JStr s) # kvs)),
                     res_errors = [] \<rparr> \<and>
         get_prop (normalized ((''name'', JStr s) # kvs)) ''name'' = JStr s"
proof -
  have "satisfies_rules em ((''name'', JStr s) # kvs)"
    using assms by (simp add: satisfies_rules_def get_prop_Cons name_rule_def)
  moreover have "\<not> promise_like ((''name'', JStr s) # kvs)"
    using assms(2) by (simp add: promise_like_def get_prop_Cons)
  ultimately show ?thesis
    by (simp add: rules_accepted normalized_get field_names_def get_prop_Cons)
qed

text \<open>
  C10, at a concrete input: the name is one space.
\<close>

theorem whitespace_name_accepted_witness:
  "satisfies_rules zod_emailRegex valid_booking \<and> \<not> promise_like valid_booking \<and>
   '' '' \<noteq> [] \<and> list_all is_whitespace '' '' \<and>
   fst (zodResolver (schema zod_emailRegex keeps_default)
          (JObj ((''name'', JStr '' '') # valid_booking)) 0) =
     Returns \<lparr> res_values =
                 JObj [(''name'', JStr '' ''), (''email'', JStr ''ann@example.com''),
                       (''phone'', JStr ''9876543210''), (''tickets'', JNum (Finite 2)),
                       (''date'', JDate (Some 1793577600000)),
                       (''time'', JDate (Some 1793613600000)),
                       (''payment'', JStr ''UPI''), (''seat'', JStr ''Aisle'')],
               res_errors = [] \<rparr>"
proof -
  have n: "'' '' \<noteq> []" by simp
  have w: "list_all is_whitespace '' ''" by (simp add: is_whitespace_def)
  show ?thesis
    using whitespace_name_accepted [OF valid_booking_rules valid_booking_plain n w,
        where pcp = keeps_default and li = 0] valid_booking_rules valid_booking_plain w
    by (simp add: normalized_def field_names_def has_prop_def get_prop_def valid_booking_def)
qed

section \<open>Further properties\<close>

text \<open>
  X1. Whatever the input, the two messages of lines 14-15 never reach the error map: not
  "Booking date is required" for \<^verbatim>\<open>date\<close>, not "Show/travel time is required" for
  \<^verbatim>\<open>time\<close>.
\<close>

theorem custom_messages_unreachable:
  "\<exists>res. fst (zodResolver (schema em pcp) data li) = Returns res \<and>
     error_message res ''date'' \<noteq> Some ''Booking date is required'' \<and>
     error_message res ''time'' \<noteq> Some ''Show/travel time is required''"
proof (cases "getParsedType data = T_object")
  case True
  then obtain kvs where d: "data = JObj kvs" and n: "\<not> promise_like kvs"
    using plain_object by blast
  obtain res where r: "fst (zodResolver (schema em pcp) (JObj kvs) li) = Returns res"
    and e: "res_errors res = parseErrorSchema (all_issues (field_results em pcp kvs)) []"
    using resolver_errors [OF n] by blast
  have 1: "error_message res ''date'' \<noteq> Some ''Booking date is required''"
    using date_messages [of "''Booking date is required''" "''date''" "get_prop kvs ''date''"]
    by (auto simp: error_message_def e error_entry [OF date_member] split: list.splits)
  have 2: "error_message res ''time'' \<noteq> Some ''Show/travel time is required''"
    using date_messages [of "''Show/travel time is required''" "''time''" "get_prop kvs ''time''"]
    by (auto simp: error_message_def e error_entry [OF time_member] split: list.splits)
  show ?thesis using r d 1 2 by simp
next
  case False
  then show ?thesis by (simp add: resolver_other error_message_def)
qed

text \<open>
  X2. In a plain object, a \<^verbatim>\<open>tickets\<close> value that is a string is rejected with zod's
  message for a wrong type, whatever the string: this is the value a \<^verbatim>\<open>select\<close> element
  yields.
\<close>

theorem string_tickets_rejected:
  assumes "get_prop kvs ''tickets'' = JStr s" and "\<not> promise_like kvs"
  shows "\<exists>res. fst (zodResolver (schema em pcp) (JObj kvs) li) = Returns res \<and>
           error_message res ''tickets'' = Some ''Expected number, received string''"
proof -
  let ?t = "number_min (Finite 1) ''At least one ticket is required'' z_number"
  obtain res where r: "fst (zodResolver (schema em pcp) (JObj kvs) li) = Returns res"
    and m: "error_message res ''tickets'' =
          (case check_field ?t ''tickets'' (get_prop kvs ''tickets'') of
             [] \<Rightarrow> None | i # _ \<Rightarrow> Some (message i))"
    using field_message [OF tickets_member assms(2)] by blast
  have "check_field ?t ''tickets'' (JStr s) =
          [\<lparr> code = invalid_type, path = [''tickets''],
             message = ''Expected number, received string'' \<rparr>]"
    by (simp add: check_field_def field_defs type_issue_def default_invalid_type_def)
  then show ?thesis using r m assms(1) by simp
qed

text \<open>
  X2, at a concrete input: Ann's booking with the ticket count "3" picked in the form.
\<close>

theorem string_tickets_rejected_witness:
  "get_prop picked_booking ''tickets'' = JStr ''3'' \<and> \<not> promise_like picked_booking \<and>
   fst (zodResolver (schema zod_emailRegex keeps_default) (JObj picked_booking) 0) =
     Returns \<lparr> res_values = JObj [],
               res_errors = [(''tickets'', \<lparr> fe_message = ''Expected number, received string'',
                                              fe_type = invalid_type \<rparr>)] \<rparr>"
proof -
  have g: "get_prop picked_booking ''tickets'' = JStr ''3''"
    by (simp add: get_prop_def picked_booking_def)
  have m: "\<not> promise_like picked_booking"
    by (simp add: promise_like_def picked_booking_def get_prop_def)
  show ?thesis
    using string_tickets_rejected [OF g m, where em = zod_emailRegex and pcp = keeps_default
        and li = 0] g m
    by (simp add: eval_defs picked_booking_def)
qed

text \<open>
  X3. If the library takes a string second argument of \<^verbatim>\<open>z.enum\<close> for the message of the
  schema (as zod 4 does), then in a plain object a payment that violates its rule is
  reported as "Please select a payment option" and a seat that violates its rule as
  "Please select a seat preference".
\<close>

theorem enum_message_when_string_is_read:
  assumes "\<And>m c data d. pcp (JStr m) c data d = m" and "\<not> promise_like kvs"
  shows "\<exists>res. fst (zodResolver (schema em pcp) (JObj kvs) li) = Returns res \<and>
           (\<not> payment_rule (get_prop kvs ''payment'') \<longrightarrow>
              error_message res ''payment'' = Some ''Please select a payment option'') \<and>
           (\<not> seat_rule (get_prop kvs ''seat'') \<longrightarrow>
              error_message res ''seat'' = Some ''Please select a seat preference'')"
  using enum_entries [OF assms(2), of em pcp li]
  by (auto simp: assms(1) split: jsvalue.splits)

text \<open>
  X3, at a concrete input: the booking paid in "Crypto" with the seat "Middle", under the
  reading that takes a string for the message.
\<close>

theorem enum_message_when_string_is_read_witness:
  "\<not> promise_like crypto_booking \<and>
   fst (zodResolver
          (schema zod_emailRegex (\<lambda>params c data d. case params of JStr m \<Rightarrow> m | _ \<Rightarrow> d))
          (JObj crypto_booking) 0) =
     Returns \<lparr> res_values = JObj [],
               res_errors =
                 [(''payment'', \<lparr> fe_message = ''Please select a payment option'',
                                   fe_type = invalid_enum_value \<rparr>),
                  (''seat'', \<lparr> fe_message = ''Please select a seat preference'',
                                fe_type = invalid_enum_value \<rparr>)] \<rparr>"
proof -
  have m: "\<not> promise_like crypto_booking"
    by (simp add: promise_like_def crypto_booking_def get_prop_def)
  have h: "\<And>m c data d. (case JStr m of JStr m \<Rightarrow> m | _ \<Rightarrow> d) = m"
    by simp
  show ?thesis
    using m enum_message_when_string_is_read
        [where pcp = "\<lambda>params c data d. case params of JStr m \<Rightarrow> m | _ \<Rightarrow> d"
          and kvs = crypto_booking and em = zod_emailRegex and li = 0, OF h m]
    by (simp add: eval_defs crypto_booking_def)
qed

text \<open>
  X4. If the library ignores a string second argument of \<^verbatim>\<open>z.enum\<close> (as zod 3 does, which
  reads an object there), then in a plain object a payment and a seat that are strings
  outside the enumerations are reported with the library's default message for an
  invalid enum value, which names the options and the value received.
\<close>

theorem enum_message_when_string_is_ignored:
  assumes "\<And>m c data d. pcp (JStr m) c data d = d" and "\<not> promise_like kvs"
    and "get_prop kvs ''payment'' = JStr a" and "a \<notin> set [''Card'', ''UPI'', ''Net Banking'', ''Wallet'']"
    and "get_prop kvs ''seat'' = JStr b" and "b \<notin> set [''Window'', ''Aisle'', ''Center'']"
  shows "\<exists>res. fst (zodResolver (schema em pcp) (JObj kvs) li) = Returns res \<and>
           error_message res ''payment'' =
             Some (default_invalid_enum_value [''Card'', ''UPI'', ''Net Banking'', ''Wallet''] a) \<and>
           error_message res ''seat'' =
             Some (default_invalid_enum_value [''Window'', ''Aisle'', ''Center''] b)"
  using enum_entries [OF assms(2), of em pcp li] assms(3-6)
  by (auto simp: assms(1) payment_rule_def seat_rule_def)

text \<open>
  X4, at a concrete input: the booking paid in "Crypto" with the seat "Middle", under the
  reading that leaves the default message.
\<close>

theorem enum_message_when_string_is_ignored_witness:
  "\<not> promise_like crypto_booking \<and>
   fst (zodResolver (schema zod_emailRegex keeps_default) (JObj crypto_booking) 0) =
     Returns \<lparr> res_values = JObj [],
               res_errors =
                 [(''payment'',
                   \<lparr> fe_message =
                       ''Invalid enum value. Expected 'Card' | 'UPI' | 'Net Banking' | 'Wallet', received 'Crypto'' @ [CHR 0x27],
                     fe_type = invalid_enum_value \<rparr>),
                  (''seat'',
                   \<lparr> fe_message =
                       ''Invalid enum value. Expected 'Window' | 'Aisle' | 'Center', received 'Middle'' @ [CHR 0x27],
                     fe_type = invalid_enum_value \<rparr>)] \<rparr>"
proof -
  have m: "\<not> promise_like crypto_booking"
    by (simp add: promise_like_def crypto_booking_def get_prop_def)
  have h: "\<And>m c data d. keeps_default (JStr m) c data d = d"
    by (simp add: keeps_default_def)
  have p: "get_prop crypto_booking ''payment'' = JStr ''Crypto''"
    and s: "get_prop crypto_booking ''seat'' = JStr ''Middle''"
    by (simp_all add: crypto_booking_def get_prop_def)
  have np: "''Crypto'' \<notin> set [''Card'', ''UPI'', ''Net Banking'', ''Wallet'']"
    and ns: "''Middle'' \<notin> set [''Window'', ''Aisle'', ''Center'']"
    by simp_all
  show ?thesis
    using m enum_message_when_string_is_ignored
        [where pcp = keeps_default and kvs = crypto_booking and em = zod_emailRegex and li = 0,
          OF h m p np s ns]
    by (simp add: eval_defs crypto_booking_def)
qed

end
